theory Spec2Isabelle
  imports Complex_Main "HOL-Library.Multiset" "HOL-Library.AList"
begin

section \<open>Values, dictionaries and errors\<close>

text \<open>
  The hill-climbing step of \<^verbatim>\<open>supervised/tuner/hill_climbing.py\<close> works on Python
  dictionaries whose values are scalars. A scalar is \<^verbatim>\<open>None\<close>, an integer, a finite
  float (denoted by its exact rational value; NaN and the infinities are left out) or a
  string.
\<close>

datatype pyval = PyNone | PyInt int | PyFloat rat | PyStr string

text \<open>Python's \<^verbatim>\<open>==\<close> on scalars: numbers compare by value across int and float.\<close>

fun py_eq :: "pyval \<Rightarrow> pyval \<Rightarrow> bool" where
  "py_eq PyNone PyNone = True"
| "py_eq (PyInt a) (PyInt b) = (a = b)"
| "py_eq (PyInt a) (PyFloat b) = (of_int a = b)"
| "py_eq (PyFloat a) (PyInt b) = (a = of_int b)"
| "py_eq (PyFloat a) (PyFloat b) = (a = b)"
| "py_eq (PyStr a) (PyStr b) = (a = b)"
| "py_eq _ _ = False"

text \<open>The exceptions the function can raise.\<close>

datatype error = ValueError | KeyError | UnboundLocalError

text \<open>
  A dictionary keeps its keys in insertion order, so a configuration is an association
  list; \<^verbatim>\<open>d[k]\<close> is \<open>map_of d k\<close> (KeyError on \<open>None\<close>) and \<^verbatim>\<open>d[k] = v\<close> is
  \<open>AList.update k v d\<close>.
\<close>

type_synonym config = "(string \<times> pyval) list"

text \<open>
  \<^verbatim>\<open>model_info["params"]\<close>: parameter name to its ordered list of legal values. The
  registry module is not among the sources; the table
  \<^verbatim>\<open>AlgorithmsRegistry.registry[ml_task][model_type]["params"]\<close> is a parameter of the
  model.
\<close>

type_synonym search_space = "string \<rightharpoonup> pyval list"

type_synonym registry = "string \<rightharpoonup> (string \<rightharpoonup> search_space)"

text \<open>
  numpy's process-wide generator is an external library: \<^verbatim>\<open>np.random.seed\<close> installs
  the state determined by the seed, \<^verbatim>\<open>np.random.permutation\<close> returns a shuffled copy
  of its argument and advances the state. Both are parameters. \<^verbatim>\<open>np.random.seed\<close>
  accepts the seeds from \<open>0\<close> to \<open>2 ^ 32 - 1\<close> and raises ValueError for any other
  integer, leaving the state as it was.
\<close>

record 'g np_random =
  np_seed :: "int \<Rightarrow> 'g"
  np_permutation :: "'g \<Rightarrow> string list \<Rightarrow> string list \<times> 'g"

definition seed_in_range :: "int \<Rightarrow> bool" where
  "seed_in_range seed = (0 \<le> seed \<and> seed < 2 ^ 32)"

definition shuffles :: "'g np_random \<Rightarrow> bool" where
  "shuffles np = (\<forall>g ks. mset (fst (np_permutation np g ks)) = mset ks)"

text \<open>
  The state a call can touch: the objects of the heap (a dictionary per address, an
  address being an index) and the state of the process-wide generator.
\<close>

record 'g world =
  objects :: "config list"
  rng :: 'g

section \<open>HillClimbing.get\<close>

text \<open>Line 21: \<^verbatim>\<open>np.random.seed(seed)\<close> on the process-wide generator.\<close>

definition seed_generator :: "'g np_random \<Rightarrow> int \<Rightarrow> 'g world \<Rightarrow> error + 'g world" where
  "seed_generator np seed w =
     (if seed_in_range seed then Inr (w\<lparr>rng := np_seed np seed\<rparr>) else Inl ValueError)"

text \<open>\<^verbatim>\<open>keys.remove(x)\<close>: drops the first occurrence, ValueError when there is none.\<close>

definition list_remove :: "string \<Rightarrow> string list \<Rightarrow> error + string list" where
  "list_remove x xs = (if x \<in> set xs then Inr (remove1 x xs) else Inl ValueError)"

text \<open>Lines 22 to 27: the keys of the configuration without the reserved ones.\<close>

definition tunable_keys :: "config \<Rightarrow> error + string list" where
  "tunable_keys params =
     (let keys = map fst params;
          keys = (if ''num_class'' \<in> set keys then remove1 ''num_class'' keys else keys)
      in case list_remove ''model_type'' keys of
           Inl e \<Rightarrow> Inl e
         | Inr keys \<Rightarrow>
             (case list_remove ''seed'' keys of
                Inl e \<Rightarrow> Inl e
              | Inr keys \<Rightarrow> list_remove ''ml_task'' keys))"

text \<open>Lines 32 and 33: two dictionary lookups, each a KeyError when the key is missing.\<close>

definition registry_lookup :: "registry \<Rightarrow> string \<Rightarrow> pyval \<Rightarrow> error + search_space" where
  "registry_lookup reg ml_task model_type =
     (case reg ml_task of
        None \<Rightarrow> Inl KeyError
      | Some models \<Rightarrow>
          (case model_type of
             PyStr name \<Rightarrow>
               (case models name of None \<Rightarrow> Inl KeyError | Some model_params \<Rightarrow> Inr model_params)
           | _ \<Rightarrow> Inl KeyError))"

text \<open>
  Lines 36 to 40: the loop over the permuted keys. The loop state is the binding of
  \<^verbatim>\<open>key_to_update\<close> and \<^verbatim>\<open>values\<close>: \<open>None\<close> before the first iteration
  (\<^verbatim>\<open>key_to_update = None\<close>, \<^verbatim>\<open>values\<close> unbound), then the pair of the last iteration.
\<close>

fun select_key ::
  "search_space \<Rightarrow> string list \<Rightarrow> (string \<times> pyval list) option
     \<Rightarrow> error + (string \<times> pyval list) option" where
  "select_key model_params [] sel = Inr sel"
| "select_key model_params (key # rest) sel =
     (case model_params key of
        None \<Rightarrow> Inl KeyError
      | Some values \<Rightarrow>
          if length values > 1 then Inr (Some (key, values))
          else select_key model_params rest (Some (key, values)))"

text \<open>
  Lines 42 to 48: the loop over \<^verbatim>\<open>enumerate(values)\<close>. \<open>left\<close> and \<open>right\<close> start as
  \<^verbatim>\<open>None\<close> and are overwritten at every match, never cleared.
\<close>

fun neighbours_loop ::
  "config \<Rightarrow> string \<Rightarrow> pyval list \<Rightarrow> nat list \<Rightarrow> pyval \<times> pyval \<Rightarrow> error + pyval \<times> pyval" where
  "neighbours_loop params key values [] (left, right) = Inr (left, right)"
| "neighbours_loop params key values (i # rest) (left, right) =
     (case map_of params key of
        None \<Rightarrow> Inl KeyError
      | Some current \<Rightarrow>
          if py_eq (values ! i) current then
            (let right = (if i + 1 < length values then values ! (i + 1) else right);
                 left = (if int i - 1 \<ge> 0 then values ! nat (int i - 1) else left)
             in neighbours_loop params key values rest (left, right))
          else neighbours_loop params key values rest (left, right))"

definition find_neighbours :: "config \<Rightarrow> string \<Rightarrow> pyval list \<Rightarrow> error + pyval \<times> pyval" where
  "find_neighbours params key values =
     neighbours_loop params key values [0..<length values] (PyNone, PyNone)"

text \<open>
  \<^verbatim>\<open>copy.deepcopy(params)\<close> allocates a new dictionary with the same items (the values
  are scalars); \<^verbatim>\<open>d[k] = v\<close> updates the dictionary at an address in place.
\<close>

definition deepcopy :: "nat \<Rightarrow> 'g world \<Rightarrow> nat \<times> 'g world" where
  "deepcopy a w = (length (objects w), w\<lparr>objects := objects w @ [objects w ! a]\<rparr>)"

definition setitem :: "nat \<Rightarrow> string \<Rightarrow> pyval \<Rightarrow> 'g world \<Rightarrow> 'g world" where
  "setitem a k v w = w\<lparr>objects := (objects w)[a := AList.update k v (objects w ! a)]\<rparr>"

text \<open>Lines 50 to 56, one direction: a copy with the new value, unless the value is \<^verbatim>\<open>None\<close>.\<close>

definition make_neighbour :: "nat \<Rightarrow> string \<Rightarrow> pyval \<Rightarrow> 'g world \<Rightarrow> nat option \<times> 'g world" where
  "make_neighbour p key v w =
     (if v \<noteq> PyNone then
        (let (a, w') = deepcopy p w in (Some a, setitem a key v w'))
      else (None, w))"

text \<open>
  The whole function. \<open>p\<close> is the address of \<^verbatim>\<open>params\<close>; the result is the pair
  \<^verbatim>\<open>[params_1, params_2]\<close> of addresses (or \<^verbatim>\<open>None\<close>), or the exception raised, together
  with the world the call leaves behind.
\<close>

definition get ::
  "'g np_random \<Rightarrow> registry \<Rightarrow> nat \<Rightarrow> string \<Rightarrow> int \<Rightarrow> 'g world
     \<Rightarrow> (error + nat option \<times> nat option) \<times> 'g world" where
  "get np reg p ml_task seed w0 =
     (case seed_generator np seed w0 of
        Inl e \<Rightarrow> (Inl e, w0)
      | Inr w1 \<Rightarrow>
     (let params = objects w1 ! p
      in case tunable_keys params of
           Inl e \<Rightarrow> (Inl e, w1)
         | Inr keys \<Rightarrow>
      (case map_of params ''model_type'' of
           None \<Rightarrow> (Inl KeyError, w1)
         | Some model_type \<Rightarrow>
      if py_eq model_type (PyStr ''Baseline'') then (Inr (None, None), w1)
      else
      (case registry_lookup reg ml_task model_type of
           Inl e \<Rightarrow> (Inl e, w1)
         | Inr model_params \<Rightarrow>
      (let (permuted_keys, g) = np_permutation np (rng w1) keys;
           w2 = w1\<lparr>rng := g\<rparr>
       in case select_key model_params permuted_keys None of
            Inl e \<Rightarrow> (Inl e, w2)
          | Inr None \<Rightarrow> (Inl UnboundLocalError, w2)
          | Inr (Some (key_to_update, values)) \<Rightarrow>
       (case find_neighbours params key_to_update values of
            Inl e \<Rightarrow> (Inl e, w2)
          | Inr (left, right) \<Rightarrow>
       (let (params_1, w3) = make_neighbour p key_to_update left w2;
            (params_2, w4) = make_neighbour p key_to_update right w3
        in (Inr (params_1, params_2), w4))))))))"

section \<open>What a call selects and what it returns\<close>

text \<open>
  The binding of \<^verbatim>\<open>key_to_update\<close> and \<^verbatim>\<open>values\<close> with which line 42 is reached;
  \<open>None\<close> when the call returns at line 31, raises before line 42 (at line 21 for a
  seed out of range), or leaves the loop of
  lines 37 to 40 without an iteration. The permutation is the one drawn from the freshly
  seeded generator, as in \<open>get\<close>.
\<close>

definition selection ::
  "'g np_random \<Rightarrow> registry \<Rightarrow> config \<Rightarrow> string \<Rightarrow> int \<Rightarrow> (string \<times> pyval list) option" where
  "selection np reg params ml_task seed =
     (if \<not> seed_in_range seed then None
      else
      case tunable_keys params of
        Inl e \<Rightarrow> None
      | Inr keys \<Rightarrow>
     (case map_of params ''model_type'' of
        None \<Rightarrow> None
      | Some model_type \<Rightarrow>
     if py_eq model_type (PyStr ''Baseline'') then None
     else
     (case registry_lookup reg ml_task model_type of
        Inl e \<Rightarrow> None
      | Inr model_params \<Rightarrow>
     (case select_key model_params (fst (np_permutation np (np_seed np seed) keys)) None of
        Inl e \<Rightarrow> None
      | Inr sel \<Rightarrow> sel))))"

text \<open>The dictionary behind a returned reference, and the result of a call read that way.\<close>

definition deref :: "'g world \<Rightarrow> nat option \<Rightarrow> config option" where
  "deref w a = map_option (\<lambda>i. objects w ! i) a"

definition outcome ::
  "'g np_random \<Rightarrow> registry \<Rightarrow> nat \<Rightarrow> string \<Rightarrow> int \<Rightarrow> 'g world
     \<Rightarrow> error + config option \<times> config option" where
  "outcome np reg p ml_task seed w =
     (case get np reg p ml_task seed w of
        (Inl e, w') \<Rightarrow> Inl e
      | (Inr (l, r), w') \<Rightarrow> Inr (deref w' l, deref w' r))"

text \<open>The keys that are never perturbed.\<close>

definition reserved :: "string set" where
  "reserved = {''model_type'', ''seed'', ''ml_task'', ''num_class''}"

text \<open>
  A well-formed input: a dictionary (no key twice) that holds \<^verbatim>\<open>model_type\<close>,
  \<^verbatim>\<open>seed\<close> and \<^verbatim>\<open>ml_task\<close>, whose model is registered for the task, and whose other
  keys are all registered in the search space of that model.
\<close>

definition well_formed :: "registry \<Rightarrow> config \<Rightarrow> string \<Rightarrow> bool" where
  "well_formed reg params ml_task =
     (distinct (map fst params) \<and>
      ''model_type'' \<in> fst ` set params \<and>
      ''seed'' \<in> fst ` set params \<and>
      ''ml_task'' \<in> fst ` set params \<and>
      (case map_of params ''model_type'' of
         None \<Rightarrow> False
       | Some model_type \<Rightarrow>
           (case registry_lookup reg ml_task model_type of
              Inl e \<Rightarrow> False
            | Inr model_params \<Rightarrow>
                (\<forall>k \<in> set (map fst params). k \<notin> reserved \<longrightarrow> model_params k \<noteq> None))))"

section \<open>Concrete inputs\<close>

text \<open>
  The regression table of \<^verbatim>\<open>supervised/algorithms/xgboost.py\<close>:
  \<^verbatim>\<open>xgb_bin_class_params\<close> and the copy of it with five entries replaced.
\<close>

definition xgb_bin_class_params :: "(string \<times> pyval list) list" where
  "xgb_bin_class_params =
     [(''booster'', [PyStr ''gbtree'', PyStr ''gblinear'']),
      (''objective'', [PyStr ''binary:logistic'']),
      (''eval_metric'', [PyStr ''auc'', PyStr ''logloss'']),
      (''eta'', map PyFloat [25 / 10000, 5 / 1000, 75 / 10000, 1 / 100, 25 / 1000,
                            5 / 100, 75 / 1000, 1 / 10]),
      (''max_depth'', map PyInt [1, 2, 3, 4, 5, 6, 7, 8, 9]),
      (''min_child_weight'', map PyInt [1, 2, 3, 4, 5, 6, 7, 8, 9, 10]),
      (''subsample'', map PyFloat [3 / 10, 4 / 10, 5 / 10, 6 / 10, 7 / 10, 8 / 10, 9 / 10, 1]),
      (''colsample_bytree'',
         map PyFloat [3 / 10, 4 / 10, 5 / 10, 6 / 10, 7 / 10, 8 / 10, 9 / 10, 1])]"

definition xgb_regression_params :: "(string \<times> pyval list) list" where
  "xgb_regression_params =
     AList.update ''max_depth'' (map PyInt [1, 2, 3, 4])
       (AList.update ''eval_metric'' [PyStr ''rmse'', PyStr ''rmsle'', PyStr ''mae'']
         (AList.update ''objective'' [PyStr ''reg:squarederror'']
           (AList.update ''booster'' [PyStr ''gbtree''] xgb_bin_class_params)))"

text \<open>
  A registry with that table under \<open>(''regression'', ''Xgboost'')\<close>, and two tables whose
  sequences hold a value twice.
\<close>

definition example_registry :: registry where
  "example_registry =
     [''regression'' \<mapsto>
        [''Xgboost'' \<mapsto> map_of xgb_regression_params,
         ''Echo'' \<mapsto> [''level'' \<mapsto> [PyInt 1, PyInt 2, PyInt 1]],
         ''Twin'' \<mapsto> [''level'' \<mapsto> [PyInt 1, PyInt 1, PyInt 2]]]]"

text \<open>A generator for the concrete runs: the state is a counter, a permutation rotates by it.\<close>

definition rotating :: "nat np_random" where
  "rotating = \<lparr>np_seed = (\<lambda>s. nat s), np_permutation = (\<lambda>g ks. (rotate g ks, Suc g))\<rparr>"

definition xgb_config :: "int \<Rightarrow> config" where
  "xgb_config depth =
     [(''eta'', PyFloat (5 / 100)), (''max_depth'', PyInt depth),
      (''model_type'', PyStr ''Xgboost''), (''seed'', PyInt 1),
      (''ml_task'', PyStr ''regression'')]"

definition level_config :: "string \<Rightarrow> config" where
  "level_config model =
     [(''level'', PyInt 1), (''model_type'', PyStr model), (''seed'', PyInt 1),
      (''ml_task'', PyStr ''regression'')]"

definition bare_config :: config where
  "bare_config =
     [(''model_type'', PyStr ''Xgboost''), (''seed'', PyInt 1),
      (''ml_task'', PyStr ''regression'')]"

definition baseline_config :: config where
  "baseline_config =
     [(''model_type'', PyStr ''Baseline''), (''seed'', PyInt 1),
      (''ml_task'', PyStr ''regression'')]"

section \<open>The loop over the values\<close>

lemma neighbours_loop_append:
  "neighbours_loop params key values (is @ js) lr =
     (case neighbours_loop params key values is lr of
        Inl e \<Rightarrow> Inl e
      | Inr lr' \<Rightarrow> neighbours_loop params key values js lr')"
proof (induction "is" arbitrary: lr)
  case Nil
  show ?case by (cases lr) simp
next
  case (Cons i rest)
  show ?case by (cases lr) (simp add: Cons.IH Let_def split: option.splits)
qed

lemma neighbours_loop_no_match:
  assumes "map_of params key = Some current"
    and "\<forall>i \<in> set is. \<not> py_eq (values ! i) current"
  shows "neighbours_loop params key values is lr = Inr lr"
  using assms
proof (induction "is" arbitrary: lr)
  case Nil
  show ?case by (cases lr) simp
next
  case (Cons i rest)
  then show ?case by (cases lr) simp
qed

lemma neighbours_loop_empty: "neighbours_loop params key values [] lr = Inr lr"
  by (cases lr) simp

lemma neighbours_loop_last_match:
  assumes cur: "map_of params key = Some current"
    and j: "j < length values" "py_eq (values ! j) current"
    and later: "\<forall>i. j < i \<and> i < length values \<longrightarrow> \<not> py_eq (values ! i) current"
    and before: "neighbours_loop params key values [0..<j] (PyNone, PyNone) = Inr (l0, r0)"
  shows "find_neighbours params key values =
     Inr (if 1 \<le> j then values ! (j - 1) else l0,
          if j + 1 < length values then values ! (j + 1) else r0)"
proof -
  have split: "[0..<length values] = [0..<j] @ [j] @ [Suc j..<length values]"
    using j(1) by (metis append_Cons append_Nil le_add2 le_add_same_cancel2 less_imp_add_positive upt_add_eq_append upt_conv_Cons)
  have tail: "neighbours_loop params key values [Suc j..<length values] lr = Inr lr" for lr
    using cur later by (intro neighbours_loop_no_match) auto
  have at_j: "neighbours_loop params key values [j] (l0, r0) =
     Inr (if 1 \<le> j then values ! (j - 1) else l0,
          if j + 1 < length values then values ! (j + 1) else r0)"
    using cur j by (auto simp add: Let_def nat_diff_distrib')
  show ?thesis
    unfolding find_neighbours_def split
    by (simp only: neighbours_loop_append before at_j tail sum.case)
qed

lemma neighbours_loop_prefix:
  assumes cur: "map_of params key = Some current"
    and j: "j < n" "n \<le> length values" "py_eq (values ! j) current"
    and later: "\<forall>i. j < i \<and> i < n \<longrightarrow> \<not> py_eq (values ! i) current"
    and before: "neighbours_loop params key values [0..<j] (PyNone, PyNone) = Inr (l0, r0)"
  shows "neighbours_loop params key values [0..<n] (PyNone, PyNone) =
     Inr (if 1 \<le> j then values ! (j - 1) else l0,
          if j + 1 < length values then values ! (j + 1) else r0)"
proof -
  have split: "[0..<n] = [0..<j] @ [j] @ [Suc j..<n]"
    using j(1) by (metis append_Cons append_Nil le_add2 le_add_same_cancel2 less_imp_add_positive
        upt_add_eq_append upt_conv_Cons)
  have tail: "neighbours_loop params key values [Suc j..<n] lr = Inr lr" for lr
    using cur later by (intro neighbours_loop_no_match) auto
  have at_j: "neighbours_loop params key values [j] (l0, r0) =
     Inr (if 1 \<le> j then values ! (j - 1) else l0,
          if j + 1 < length values then values ! (j + 1) else r0)"
    using cur j by (auto simp add: Let_def nat_diff_distrib')
  show ?thesis
    unfolding split
    by (simp only: neighbours_loop_append before at_j tail sum.case)
qed

lemma neighbours_loop_total:
  assumes "map_of params key = Some current"
  shows "\<exists>l r. neighbours_loop params key values is lr = Inr (l, r)"
  using assms
proof (induction "is" arbitrary: lr)
  case Nil
  show ?case by (cases lr) simp
next
  case (Cons i rest)
  then show ?case by (cases lr) (simp add: Let_def)
qed

lemma find_neighbours_no_match:
  assumes "map_of params key = Some current"
    and "\<forall>i < length values. \<not> py_eq (values ! i) current"
  shows "find_neighbours params key values = Inr (PyNone, PyNone)"
  unfolding find_neighbours_def using assms by (intro neighbours_loop_no_match) auto

lemma find_neighbours_unique_match:
  assumes cur: "map_of params key = Some current"
    and j: "j < length values" "py_eq (values ! j) current"
    and uniq: "\<forall>i < length values. py_eq (values ! i) current \<longrightarrow> i = j"
  shows "find_neighbours params key values =
     Inr (if 1 \<le> j then values ! (j - 1) else PyNone,
          if j + 1 < length values then values ! (j + 1) else PyNone)"
proof -
  have "\<not> py_eq (values ! i) current" if "i < j" for i
    using uniq that j(1) by (metis less_trans nat_neq_iff)
  then have "neighbours_loop params key values [0..<j] (PyNone, PyNone) = Inr (PyNone, PyNone)"
    using cur by (intro neighbours_loop_no_match) auto
  moreover have "\<forall>i. j < i \<and> i < length values \<longrightarrow> \<not> py_eq (values ! i) current"
    using uniq by auto
  ultimately show ?thesis
    using neighbours_loop_last_match [OF cur j] by simp
qed

section \<open>The keys, the copies and the whole call\<close>

lemma tunable_keys_present:
  assumes "''model_type'' \<in> fst ` set params" "''seed'' \<in> fst ` set params"
    "''ml_task'' \<in> fst ` set params"
  shows "tunable_keys params =
    Inr (remove1 ''ml_task'' (remove1 ''seed'' (remove1 ''model_type''
      (if ''num_class'' \<in> fst ` set params then remove1 ''num_class'' (map fst params)
       else map fst params))))"
  using assms by (simp add: tunable_keys_def list_remove_def Let_def)

lemma tunable_keys_absent:
  assumes "''model_type'' \<notin> fst ` set params \<or> ''seed'' \<notin> fst ` set params
    \<or> ''ml_task'' \<notin> fst ` set params"
  shows "tunable_keys params = Inl ValueError"
  using assms by (auto simp add: tunable_keys_def list_remove_def Let_def dest: notin_set_remove1)

lemma tunable_keys_set:
  assumes "tunable_keys params = Inr keys" and "distinct (map fst params)"
  shows "set keys = fst ` set params - reserved" and "distinct keys"
proof -
  let ?ks = "map fst params"
  have d: "distinct ?ks" by (rule assms(2))
  have "set keys = set ?ks - reserved \<and> distinct keys"
    using assms(1) d
    by (auto simp add: tunable_keys_def list_remove_def Let_def reserved_def
        simp del: set_map distinct_map split: if_splits sum.splits)
  then show "set keys = fst ` set params - reserved" and "distinct keys" by simp_all
qed

text \<open>The two copies at the end of a call.\<close>

lemma make_neighbours_objects:
  assumes "make_neighbour p key left w2 = (params_1, w3)"
    and "make_neighbour p key right w3 = (params_2, w4)"
    and "p < length (objects w2)"
  shows "rng w4 = rng w2"
    and "objects w4 = objects w2
           @ (if left \<noteq> PyNone then [AList.update key left (objects w2 ! p)] else [])
           @ (if right \<noteq> PyNone then [AList.update key right (objects w2 ! p)] else [])"
    and "params_1 = (if left \<noteq> PyNone then Some (length (objects w2)) else None)"
    and "params_2 = (if right \<noteq> PyNone
           then Some (length (objects w2) + (if left \<noteq> PyNone then 1 else 0)) else None)"
  using assms
  by (auto simp add: make_neighbour_def deepcopy_def setitem_def Let_def nth_append
      split: if_splits)

lemma get_selected:
  assumes sel: "selection np reg (objects w ! p) ml_task seed = Some (k, values)"
    and nb: "find_neighbours (objects w ! p) k values = Inr (left, right)"
    and p: "p < length (objects w)"
  shows "fst (get np reg p ml_task seed w) =
      Inr (if left \<noteq> PyNone then Some (length (objects w)) else None,
           if right \<noteq> PyNone
           then Some (length (objects w) + (if left \<noteq> PyNone then 1 else 0)) else None)"
    and "objects (snd (get np reg p ml_task seed w)) = objects w
           @ (if left \<noteq> PyNone then [AList.update k left (objects w ! p)] else [])
           @ (if right \<noteq> PyNone then [AList.update k right (objects w ! p)] else [])"
proof -
  obtain keys model_type model_params where
    ok: "seed_in_range seed"
    and tk: "tunable_keys (objects w ! p) = Inr keys"
    and mt: "map_of (objects w ! p) ''model_type'' = Some model_type"
    and nb0: "\<not> py_eq model_type (PyStr ''Baseline'')"
    and rl: "registry_lookup reg ml_task model_type = Inr model_params"
    and sk: "select_key model_params (fst (np_permutation np (np_seed np seed) keys)) None
               = Inr (Some (k, values))"
    using sel by (auto simp add: selection_def split: sum.splits option.splits if_splits)
  obtain permuted g where perm: "np_permutation np (np_seed np seed) keys = (permuted, g)"
    by (cases "np_permutation np (np_seed np seed) keys")
  define w2 where "w2 = w\<lparr>rng := g\<rparr>"
  obtain params_1 w3 where m1: "make_neighbour p k left w2 = (params_1, w3)"
    by (cases "make_neighbour p k left w2")
  obtain params_2 w4 where m2: "make_neighbour p k right w3 = (params_2, w4)"
    by (cases "make_neighbour p k right w3")
  have p2: "p < length (objects w2)" using p by (simp add: w2_def)
  have g: "get np reg p ml_task seed w = (Inr (params_1, params_2), w4)"
    using ok tk mt nb0 rl sk perm nb m1 m2
    by (simp add: get_def seed_generator_def Let_def w2_def)
  note facts = make_neighbours_objects [OF m1 m2 p2]
  show "fst (get np reg p ml_task seed w) =
      Inr (if left \<noteq> PyNone then Some (length (objects w)) else None,
           if right \<noteq> PyNone
           then Some (length (objects w) + (if left \<noteq> PyNone then 1 else 0)) else None)"
    using facts(3,4) by (simp add: g w2_def)
  show "objects (snd (get np reg p ml_task seed w)) = objects w
           @ (if left \<noteq> PyNone then [AList.update k left (objects w ! p)] else [])
           @ (if right \<noteq> PyNone then [AList.update k right (objects w ! p)] else [])"
    using facts(2) by (simp add: g w2_def)
qed

lemma get_unselected:
  assumes "selection np reg (objects w ! p) ml_task seed = None"
  shows "objects (snd (get np reg p ml_task seed w)) = objects w"
    and "fst (get np reg p ml_task seed w) = Inr res \<Longrightarrow> res = (None, None)"
  using assms
  by (auto simp add: get_def seed_generator_def selection_def Let_def
      split: sum.splits option.splits if_splits prod.splits)

lemma get_error_objects:
  assumes "fst (get np reg p ml_task seed w) = Inl e"
  shows "objects (snd (get np reg p ml_task seed w)) = objects w"
  using assms
  by (auto simp add: get_def seed_generator_def Let_def
      split: sum.splits option.splits if_splits prod.splits)

lemma deref_new_objects:
  "deref \<lparr>objects = objs @ news, rng = g\<rparr> (Some (length objs + i)) = Some (news ! i)"
  by (simp add: deref_def)

lemma outcome_selected:
  assumes sel: "selection np reg (objects w ! p) ml_task seed = Some (k, values)"
    and nb: "find_neighbours (objects w ! p) k values = Inr (left, right)"
    and p: "p < length (objects w)"
    and run: "get np reg p ml_task seed w = (Inr (l, r), w')"
  shows "deref w' l = (if left \<noteq> PyNone then Some (AList.update k left (objects w ! p)) else None)"
    and "deref w' r = (if right \<noteq> PyNone then Some (AList.update k right (objects w ! p)) else None)"
proof -
  have l: "l = (if left \<noteq> PyNone then Some (length (objects w)) else None)"
    and r: "r = (if right \<noteq> PyNone
           then Some (length (objects w) + (if left \<noteq> PyNone then 1 else 0)) else None)"
    using get_selected(1) [OF sel nb p] run by simp_all
  have o: "objects w' = objects w
           @ (if left \<noteq> PyNone then [AList.update k left (objects w ! p)] else [])
           @ (if right \<noteq> PyNone then [AList.update k right (objects w ! p)] else [])"
    using get_selected(2) [OF sel nb p] run by simp
  show "deref w' l = (if left \<noteq> PyNone then Some (AList.update k left (objects w ! p)) else None)"
    by (simp add: l o deref_def nth_append)
  show "deref w' r = (if right \<noteq> PyNone then Some (AList.update k right (objects w ! p)) else None)"
    by (simp add: r o deref_def nth_append)
qed

lemma py_eq_str: "py_eq v (PyStr s) = (v = PyStr s)"
  by (cases v) auto

lemma select_key_member:
  "select_key mp ks sel = Inr (Some (k, vs)) \<Longrightarrow>
     sel = Some (k, vs) \<or> (k \<in> set ks \<and> mp k = Some vs)"
  by (induction ks arbitrary: sel) (auto split: option.splits if_splits)

lemma select_key_bound:
  "select_key mp ks (Some kv) = Inr sel' \<Longrightarrow> sel' \<noteq> None"
proof (induction ks arbitrary: kv)
  case Nil
  then show ?case by auto
next
  case (Cons key rest)
  then show ?case by (auto split: option.splits if_splits)
qed

lemma select_key_total:
  "\<forall>k \<in> set ks. mp k \<noteq> None \<Longrightarrow> \<exists>sel'. select_key mp ks sel = Inr sel'"
proof (induction ks arbitrary: sel)
  case Nil
  then show ?case by simp
next
  case (Cons key rest)
  then obtain vs where vs: "mp key = Some vs" by auto
  have "\<exists>sel'. select_key mp rest (Some (key, vs)) = Inr sel'"
    using Cons.IH Cons.prems by simp
  then show ?case using vs by auto
qed

lemma select_key_registered:
  assumes "\<forall>k \<in> set ks. mp k \<noteq> None" and "ks \<noteq> []"
  shows "\<exists>kv. select_key mp ks None = Inr (Some kv)"
proof -
  obtain key rest where ks: "ks = key # rest" using assms(2) by (cases ks) auto
  obtain vs where vs: "mp key = Some vs" using assms(1) ks by auto
  obtain sel' where s: "select_key mp rest (Some (key, vs)) = Inr sel'"
    using select_key_total [of rest mp] assms(1) ks by auto
  then have "sel' \<noteq> None" by (rule select_key_bound)
  then show ?thesis using ks vs s by auto
qed

lemma select_key_short:
  "\<forall>k \<in> set ks. \<forall>vs. mp k = Some vs \<longrightarrow> length vs \<le> 1 \<Longrightarrow>
   \<forall>k vs. sel = Some (k, vs) \<longrightarrow> length vs \<le> 1 \<Longrightarrow>
   select_key mp ks sel = Inr (Some (k, vs)) \<Longrightarrow> length vs \<le> 1"
proof (induction ks arbitrary: sel)
  case Nil
  then show ?case by simp
next
  case (Cons key rest)
  show ?case
  proof (cases "mp key")
    case None
    then show ?thesis using Cons.prems(3) by simp
  next
    case (Some ws)
    then have short: "length ws \<le> 1" using Cons.prems(1) by simp
    then have "select_key mp rest (Some (key, ws)) = Inr (Some (k, vs))"
      using Cons.prems(3) Some by simp
    then show ?thesis using Cons.IH [of "Some (key, ws)"] Cons.prems(1) short by simp
  qed
qed

lemma find_neighbours_short:
  assumes "map_of params key = Some current" and "length values \<le> 1"
  shows "find_neighbours params key values = Inr (PyNone, PyNone)"
proof (cases "values")
  case Nil
  then show ?thesis by (simp add: find_neighbours_def)
next
  case (Cons v rest)
  then have "values = [v]" using assms(2) by simp
  then show ?thesis using assms(1) by (simp add: find_neighbours_def)
qed

lemma shuffles_set: "shuffles np \<Longrightarrow> set (fst (np_permutation np g ks)) = set ks"
  unfolding shuffles_def by (metis set_mset_mset)

lemma shuffles_Nil: "shuffles np \<Longrightarrow> fst (np_permutation np g ks) = [] \<longleftrightarrow> ks = []"
  unfolding shuffles_def by (metis mset_zero_iff)

lemma mset_rotate_eq: "mset (rotate n xs) = mset xs"
proof (induction n)
  case 0
  show ?case by simp
next
  case (Suc n)
  have "mset (rotate1 ys) = mset ys" for ys :: "'a list" by (cases ys) simp_all
  then show ?case using Suc by simp
qed

lemma shuffles_rotating: "shuffles rotating"
  by (simp add: shuffles_def rotating_def mset_rotate_eq)

lemma selection_tunable:
  assumes "shuffles np" and "distinct (map fst params)"
    and "selection np reg params ml_task seed = Some (k, values)"
  shows "k \<in> fst ` set params - reserved"
proof -
  obtain keys model_params where
    tk: "tunable_keys params = Inr keys"
    and sk: "select_key model_params (fst (np_permutation np (np_seed np seed) keys)) None
               = Inr (Some (k, values))"
    using assms(3) by (auto simp add: selection_def split: sum.splits option.splits if_splits)
  have "k \<in> set (fst (np_permutation np (np_seed np seed) keys))"
    using select_key_member [OF sk] by simp
  then have "k \<in> set keys" using shuffles_set [OF assms(1)] by simp
  then show ?thesis using tunable_keys_set(1) [OF tk assms(2)] by simp
qed

lemma selection_registered:
  assumes "selection np reg params ml_task seed = Some (k, values)"
  shows "\<exists>model_type model_params. map_of params ''model_type'' = Some model_type \<and>
           registry_lookup reg ml_task model_type = Inr model_params \<and>
           model_params k = Some values"
proof -
  obtain keys model_type model_params where
    "map_of params ''model_type'' = Some model_type"
    and "registry_lookup reg ml_task model_type = Inr model_params"
    and sk: "select_key model_params (fst (np_permutation np (np_seed np seed) keys)) None
               = Inr (Some (k, values))"
    using assms by (auto simp add: selection_def split: sum.splits option.splits if_splits)
  then show ?thesis using select_key_member [OF sk] by auto
qed

lemma well_formed_selection:
  assumes wf: "well_formed reg params ml_task" and sh: "shuffles np"
    and nb: "map_of params ''model_type'' \<noteq> Some (PyStr ''Baseline'')"
    and tk: "tunable_keys params = Inr keys" and ne: "keys \<noteq> []"
    and ok: "seed_in_range seed"
  shows "\<exists>k values current. selection np reg params ml_task seed = Some (k, values) \<and>
           map_of params k = Some current"
proof -
  from wf obtain model_type model_params where
    mt: "map_of params ''model_type'' = Some model_type"
    and rl: "registry_lookup reg ml_task model_type = Inr model_params"
    and reg: "\<forall>k \<in> fst ` set params - reserved. model_params k \<noteq> None"
    and d: "distinct (map fst params)"
    by (auto simp add: well_formed_def split: option.splits sum.splits)
  let ?perm = "fst (np_permutation np (np_seed np seed) keys)"
  have "set ?perm = fst ` set params - reserved"
    using shuffles_set [OF sh] tunable_keys_set(1) [OF tk d] by simp
  moreover have "?perm \<noteq> []" using shuffles_Nil [OF sh] ne by simp
  ultimately obtain kv where sk: "select_key model_params ?perm None = Inr (Some kv)"
    using select_key_registered [of ?perm model_params] reg by auto
  obtain k vs where sel: "kv = (k, vs)" by (cases kv)
  have s: "selection np reg params ml_task seed = Some (k, vs)"
    using ok tk mt nb rl sk sel by (simp add: selection_def py_eq_str)
  have "k \<in> fst ` set params" using selection_tunable [OF sh d s] by simp
  then obtain current where "map_of params k = Some current"
    by (metis domD dom_map_of_conv_image_fst)
  then show ?thesis using s by blast
qed

text \<open>
  For a well-formed input with at least one tunable key the call raises nothing, and it
  returns \<^verbatim>\<open>[None, None]\<close> when no tunable key has more than one registered value.
\<close>

lemma well_formed_returns:
  assumes "well_formed reg (objects w ! p) ml_task" and "shuffles np"
    and "p < length (objects w)"
    and "tunable_keys (objects w ! p) = Inr keys" and "keys \<noteq> []"
    and "seed_in_range seed"
  shows "\<exists>res. fst (get np reg p ml_task seed w) = Inr res"
proof (cases "map_of (objects w ! p) ''model_type'' = Some (PyStr ''Baseline'')")
  case True
  then show ?thesis using assms(4,6) by (simp add: get_def seed_generator_def Let_def)
next
  case False
  obtain k vs current where
    s: "selection np reg (objects w ! p) ml_task seed = Some (k, vs)"
    and c: "map_of (objects w ! p) k = Some current"
    using well_formed_selection [OF assms(1,2) False assms(4,5,6)] by blast
  obtain l r where "find_neighbours (objects w ! p) k vs = Inr (l, r)"
    unfolding find_neighbours_def using neighbours_loop_total [OF c] by blast
  then show ?thesis using get_selected(1) [OF s _ assms(3)] by blast
qed

lemma no_long_sequence_no_step:
  assumes "well_formed reg (objects w ! p) ml_task" and "shuffles np"
    and "p < length (objects w)"
    and "tunable_keys (objects w ! p) = Inr keys" and "keys \<noteq> []"
    and "map_of (objects w ! p) ''model_type'' = Some model_type"
    and "registry_lookup reg ml_task model_type = Inr model_params"
    and "\<forall>k \<in> set keys. \<forall>vs. model_params k = Some vs \<longrightarrow> length vs \<le> 1"
    and "seed_in_range seed"
  shows "fst (get np reg p ml_task seed w) = Inr (None, None)"
proof (cases "map_of (objects w ! p) ''model_type'' = Some (PyStr ''Baseline'')")
  case True
  then show ?thesis using assms(4,9) by (simp add: get_def seed_generator_def Let_def)
next
  case False
  obtain k vs current where
    s: "selection np reg (objects w ! p) ml_task seed = Some (k, vs)"
    and c: "map_of (objects w ! p) k = Some current"
    using well_formed_selection [OF assms(1,2) False assms(4,5,9)] by blast
  have d: "distinct (map fst (objects w ! p))" using assms(1) by (simp add: well_formed_def)
  have "k \<in> set keys"
    using selection_tunable [OF assms(2) d s] tunable_keys_set(1) [OF assms(4) d] by simp
  moreover have "model_params k = Some vs"
    using selection_registered [OF s] assms(6,7) by auto
  ultimately have "length vs \<le> 1" using assms(8) by blast
  then have "find_neighbours (objects w ! p) k vs = Inr (PyNone, PyNone)"
    using find_neighbours_short [OF c] by simp
  then show ?thesis using get_selected(1) [OF s _ assms(3)] by simp
qed

lemma make_neighbour_rng: "rng (snd (make_neighbour p key v w)) = rng w"
  by (simp add: make_neighbour_def deepcopy_def setitem_def)

lemma get_selected_error:
  assumes "selection np reg (objects w ! p) ml_task seed = Some (k, vs)"
    and "find_neighbours (objects w ! p) k vs = Inl e"
  shows "fst (get np reg p ml_task seed w) = Inl e"
  using assms
  by (auto simp add: get_def seed_generator_def selection_def Let_def
      split: sum.splits option.splits if_splits prod.splits)

lemma outcome_unselected:
  assumes "selection np reg (objects w1 ! p1) ml_task seed = None"
    and "objects w1 ! p1 = objects w2 ! p2"
  shows "outcome np reg p1 ml_task seed w1 = outcome np reg p2 ml_task seed w2"
  using assms
  by (auto simp add: outcome_def get_def seed_generator_def selection_def deref_def Let_def
      split: sum.splits option.splits if_splits prod.splits)

lemmas run_defs = get_def seed_generator_def seed_in_range_def selection_def outcome_def deref_def rotating_def example_registry_def
  xgb_regression_params_def xgb_bin_class_params_def xgb_config_def level_config_def
  baseline_config_def bare_config_def tunable_keys_def list_remove_def registry_lookup_def
  find_neighbours_def make_neighbour_def deepcopy_def setitem_def well_formed_def reserved_def
  Let_def

section \<open>The claims\<close>

text \<open>
  C1 (as amended). When the call selects the key \<open>k\<close> and the current value of \<open>k\<close>
  occurs exactly once in the registered sequence, at index \<open>j\<close>: the right result, when
  present, holds at \<open>k\<close> the value at index \<open>j + 1\<close>; the left result, when present,
  holds the value at index \<open>j - 1\<close>; left is absent when \<open>j\<close> is the first position and
  right is absent when \<open>j\<close> is the last. The pair the call returns is
  \<^verbatim>\<open>[params_1, params_2]\<close>, the left result first.
\<close>

theorem adjacent_values_unique_match:
  assumes "p < length (objects w)"
    and "selection np reg (objects w ! p) ml_task seed = Some (k, values)"
    and "map_of (objects w ! p) k = Some current"
    and "j < length values" and "py_eq (values ! j) current"
    and "\<forall>i < length values. py_eq (values ! i) current \<longrightarrow> i = j"
    and "get np reg p ml_task seed w = (Inr (left, right), w')"
  shows "(\<forall>c. deref w' right = Some c \<longrightarrow>
            j + 1 < length values \<and> map_of c k = Some (values ! (j + 1))) \<and>
         (\<forall>c. deref w' left = Some c \<longrightarrow>
            1 \<le> j \<and> map_of c k = Some (values ! (j - 1))) \<and>
         (j = 0 \<longrightarrow> left = None) \<and>
         (j + 1 = length values \<longrightarrow> right = None)"
proof -
  let ?lv = "if 1 \<le> j then values ! (j - 1) else PyNone"
  let ?rv = "if j + 1 < length values then values ! (j + 1) else PyNone"
  have nb: "find_neighbours (objects w ! p) k values = Inr (?lv, ?rv)"
    using find_neighbours_unique_match [OF assms(3,4,5,6)] .
  note d = outcome_selected [OF assms(2) nb assms(1) assms(7)]
  have res: "fst (get np reg p ml_task seed w) = Inr (left, right)"
    using assms(7) by simp
  note f = get_selected(1) [OF assms(2) nb assms(1), unfolded res]
  have a: "\<forall>c. deref w' right = Some c \<longrightarrow>
            j + 1 < length values \<and> map_of c k = Some (values ! (j + 1))"
    using d(2) by (auto simp add: update_conv' split: if_splits)
  have b: "\<forall>c. deref w' left = Some c \<longrightarrow>
            1 \<le> j \<and> map_of c k = Some (values ! (j - 1))"
    using d(1) by (auto simp add: update_conv' split: if_splits)
  have c: "j = 0 \<longrightarrow> left = None" using f by simp
  have e: "j + 1 = length values \<longrightarrow> right = None" using f by simp
  show ?thesis using a b c e by blast
qed

theorem adjacent_values_unique_match_witness:
  "(0 < length (objects \<lparr>objects = [xgb_config 2], rng = 0::nat\<rparr>) \<and>
    selection rotating example_registry
      (objects \<lparr>objects = [xgb_config 2], rng = 0::nat\<rparr> ! 0) ''regression'' 1
      = Some (''max_depth'', map PyInt [1, 2, 3, 4]) \<and>
    map_of (objects \<lparr>objects = [xgb_config 2], rng = 0::nat\<rparr> ! 0) ''max_depth''
      = Some (PyInt 2) \<and>
    1 < length (map PyInt [1, 2, 3, 4]) \<and>
    py_eq (map PyInt [1, 2, 3, 4] ! 1) (PyInt 2) \<and>
    filter (\<lambda>i. py_eq (map PyInt [1, 2, 3, 4] ! i) (PyInt 2))
      [0..<length (map PyInt [1, 2, 3, 4])] = [1] \<and>
    get rotating example_registry 0 ''regression'' 1 \<lparr>objects = [xgb_config 2], rng = 0\<rparr>
      = (Inr (Some 1, Some 2),
         \<lparr>objects = [xgb_config 2, xgb_config 1, xgb_config 3], rng = 2\<rparr>)) \<and>
   deref \<lparr>objects = [xgb_config 2, xgb_config 1, xgb_config 3], rng = 2::nat\<rparr> (Some 2)
     = Some (xgb_config 3) \<and>
   map_of (xgb_config 3) ''max_depth'' = Some (PyInt 3) \<and>
   deref \<lparr>objects = [xgb_config 2, xgb_config 1, xgb_config 3], rng = 2::nat\<rparr> (Some 1)
     = Some (xgb_config 1) \<and>
   map_of (xgb_config 1) ''max_depth'' = Some (PyInt 1)"
proof -
  let ?w = "\<lparr>objects = [xgb_config 2], rng = 0::nat\<rparr>"
  let ?w' = "\<lparr>objects = [xgb_config 2, xgb_config 1, xgb_config 3], rng = 2::nat\<rparr>"
  let ?vs = "map PyInt [1, 2, 3, 4]"
  have h1: "0 < length (objects ?w)" by simp
  have h2: "selection rotating example_registry (objects ?w ! 0) ''regression'' 1
      = Some (''max_depth'', ?vs)"
    by (simp add: run_defs)
  have h3: "map_of (objects ?w ! 0) ''max_depth'' = Some (PyInt 2)"
    by (simp add: run_defs)
  have h4: "1 < length ?vs" by simp
  have h5: "py_eq (?vs ! 1) (PyInt 2)" by simp
  have h6: "\<forall>i < length ?vs. py_eq (?vs ! i) (PyInt 2) \<longrightarrow> i = 1"
    by (simp add: All_less_Suc eval_nat_numeral)
  have h7: "get rotating example_registry 0 ''regression'' 1 ?w = (Inr (Some 1, Some 2), ?w')"
    by (simp add: run_defs upt_rec)
  note c = adjacent_values_unique_match [OF h1 h2 h3 h4 h5 h6 h7]
  have d2: "deref ?w' (Some 2) = Some (xgb_config 3)" by (simp add: deref_def)
  have d1: "deref ?w' (Some 1) = Some (xgb_config 1)" by (simp add: deref_def)
  have c2: "map_of (xgb_config 3) ''max_depth'' = Some (PyInt 3)"
    using c d2 by simp
  have c1: "map_of (xgb_config 1) ''max_depth'' = Some (PyInt 1)"
    using c d1 by simp
  have f: "filter (\<lambda>i. py_eq (?vs ! i) (PyInt 2)) [0..<length ?vs] = [1]"
    by (simp add: upt_rec)
  show ?thesis
    by (intro conjI h1 h2 h3 h4 h5 f h7 d2 c2 d1 c1)
qed

text \<open>
  C1 as stated fails when the current value occurs twice: in \<open>[1, 2, 1]\<close> with current
  value \<open>1\<close> the value matches at the first and at the last position, and both results
  are present. The right one holds \<open>2\<close>, kept from the match at index \<open>0\<close>.
\<close>

theorem adjacency_with_repeats_counterexample:
  "well_formed example_registry (level_config ''Echo'') ''regression'' \<and>
   selection rotating example_registry (level_config ''Echo'') ''regression'' 1
     = Some (''level'', [PyInt 1, PyInt 2, PyInt 1]) \<and>
   map_of (level_config ''Echo'') ''level'' = Some (PyInt 1) \<and>
   py_eq ([PyInt 1, PyInt 2, PyInt 1] ! 0) (PyInt 1) \<and>
   py_eq ([PyInt 1, PyInt 2, PyInt 1] ! 2) (PyInt 1) \<and>
   2 + 1 = length [PyInt 1, PyInt 2, PyInt 1] \<and>
   get rotating example_registry 0 ''regression'' 1
       \<lparr>objects = [level_config ''Echo''], rng = 0\<rparr>
     = (Inr (Some 1, Some 2),
        \<lparr>objects = [level_config ''Echo'',
                     AList.update ''level'' (PyInt 2) (level_config ''Echo''),
                     AList.update ''level'' (PyInt 2) (level_config ''Echo'')],
         rng = 2\<rparr>)"
  by (simp add: run_defs upt_rec)

text \<open>
  C2 (as amended). When the current value of the selected key occurs at most once in the
  registered sequence, every result that is present has the keys of the input, agrees
  with the input on every key but the selected one, holds there a value that is not equal
  to the current one, and the selected key is none of \<^verbatim>\<open>model_type\<close>, \<^verbatim>\<open>seed\<close>,
  \<^verbatim>\<open>ml_task\<close>, \<^verbatim>\<open>num_class\<close>.
\<close>

theorem single_key_difference:
  assumes "p < length (objects w)"
    and "shuffles np"
    and "distinct (map fst (objects w ! p))"
    and "selection np reg (objects w ! p) ml_task seed = Some (k, vs)"
    and "map_of (objects w ! p) k = Some current"
    and "\<forall>i j. i < length vs \<and> j < length vs \<and>
           py_eq (vs ! i) current \<and> py_eq (vs ! j) current \<longrightarrow> i = j"
    and "get np reg p ml_task seed w = (Inr (left, right), w')"
    and "deref w' left = Some c \<or> deref w' right = Some c"
  shows "k \<notin> reserved \<and>
         map fst c = map fst (objects w ! p) \<and>
         (\<forall>k'. k' \<noteq> k \<longrightarrow> map_of c k' = map_of (objects w ! p) k') \<and>
         (\<exists>v. map_of c k = Some v \<and> \<not> py_eq v current)"
proof -
  let ?params = "objects w ! p"
  have tun: "k \<in> fst ` set ?params - reserved"
    using selection_tunable [OF assms(2,3,4)] .
  have upd: "map fst (AList.update k v ?params) = map fst ?params \<and>
      (\<forall>k'. k' \<noteq> k \<longrightarrow> map_of (AList.update k v ?params) k' = map_of ?params k') \<and>
      map_of (AList.update k v ?params) k = Some v" for v
    using tun by (simp add: update_keys update_conv')
  show ?thesis
  proof (cases "\<exists>j < length vs. py_eq (vs ! j) current")
    case False
    then have "find_neighbours ?params k vs = Inr (PyNone, PyNone)"
      using find_neighbours_no_match [OF assms(5)] by simp
    from outcome_selected [OF assms(4) this assms(1,7)] assms(8)
    show ?thesis by simp
  next
    case True
    then obtain j where j: "j < length vs" "py_eq (vs ! j) current" by blast
    have uniq: "\<forall>i < length vs. py_eq (vs ! i) current \<longrightarrow> i = j"
      using assms(6) j by blast
    let ?lv = "if 1 \<le> j then vs ! (j - 1) else PyNone"
    let ?rv = "if j + 1 < length vs then vs ! (j + 1) else PyNone"
    have nb: "find_neighbours ?params k vs = Inr (?lv, ?rv)"
      using find_neighbours_unique_match [OF assms(5) j uniq] .
    note d = outcome_selected [OF assms(4) nb assms(1,7)]
    have lv: "\<not> py_eq (vs ! (j - 1)) current" if "1 \<le> j"
      using uniq that j(1) by (metis One_nat_def diff_Suc_less less_imp_diff_less not_less_eq_eq
          le_zero_eq nat_neq_iff not_one_le_zero zero_less_iff_neq_zero)
    have rv: "\<not> py_eq (vs ! (j + 1)) current" if "j + 1 < length vs"
      using uniq that by (metis add_cancel_right_right zero_neq_one)
    from assms(8) obtain v where "c = AList.update k v ?params" and "\<not> py_eq v current"
      using d lv rv by (auto split: if_splits)
    then show ?thesis using upd [of v] tun by simp
  qed
qed

theorem single_key_difference_witness:
  "(0 < length (objects \<lparr>objects = [xgb_config 2], rng = 0::nat\<rparr>) \<and>
    shuffles rotating \<and>
    distinct (map fst (objects \<lparr>objects = [xgb_config 2], rng = 0::nat\<rparr> ! 0)) \<and>
    selection rotating example_registry
      (objects \<lparr>objects = [xgb_config 2], rng = 0::nat\<rparr> ! 0) ''regression'' 1
      = Some (''max_depth'', map PyInt [1, 2, 3, 4]) \<and>
    map_of (objects \<lparr>objects = [xgb_config 2], rng = 0::nat\<rparr> ! 0) ''max_depth''
      = Some (PyInt 2) \<and>
    filter (\<lambda>i. py_eq (map PyInt [1, 2, 3, 4] ! i) (PyInt 2))
      [0..<length (map PyInt [1, 2, 3, 4])] = [1] \<and>
    get rotating example_registry 0 ''regression'' 1 \<lparr>objects = [xgb_config 2], rng = 0\<rparr>
      = (Inr (Some 1, Some 2),
         \<lparr>objects = [xgb_config 2, xgb_config 1, xgb_config 3], rng = 2\<rparr>) \<and>
    (deref \<lparr>objects = [xgb_config 2, xgb_config 1, xgb_config 3], rng = 2::nat\<rparr> (Some 1)
       = Some (xgb_config 3) \<or>
     deref \<lparr>objects = [xgb_config 2, xgb_config 1, xgb_config 3], rng = 2::nat\<rparr> (Some 2)
       = Some (xgb_config 3))) \<and>
   ''max_depth'' \<notin> reserved \<and>
   map fst (xgb_config 3) = map fst (xgb_config 2) \<and>
   map_of (xgb_config 3) ''eta'' = map_of (xgb_config 2) ''eta'' \<and>
   (\<exists>v. map_of (xgb_config 3) ''max_depth'' = Some v \<and> \<not> py_eq v (PyInt 2))"
proof -
  let ?w = "\<lparr>objects = [xgb_config 2], rng = 0::nat\<rparr>"
  let ?w' = "\<lparr>objects = [xgb_config 2, xgb_config 1, xgb_config 3], rng = 2::nat\<rparr>"
  let ?vs = "map PyInt [1, 2, 3, 4]"
  have h1: "0 < length (objects ?w)" by simp
  have h2: "shuffles rotating" by (rule shuffles_rotating)
  have h3: "distinct (map fst (objects ?w ! 0))" by (simp add: run_defs)
  have h4: "selection rotating example_registry (objects ?w ! 0) ''regression'' 1
      = Some (''max_depth'', ?vs)"
    by (simp add: run_defs)
  have h5: "map_of (objects ?w ! 0) ''max_depth'' = Some (PyInt 2)"
    by (simp add: run_defs)
  have one: "\<forall>i < length ?vs. py_eq (?vs ! i) (PyInt 2) \<longrightarrow> i = 1"
    by (simp add: All_less_Suc eval_nat_numeral)
  have h6: "\<forall>i j. i < length ?vs \<and> j < length ?vs \<and>
       py_eq (?vs ! i) (PyInt 2) \<and> py_eq (?vs ! j) (PyInt 2) \<longrightarrow> i = j"
    using one by metis
  have h7: "get rotating example_registry 0 ''regression'' 1 ?w = (Inr (Some 1, Some 2), ?w')"
    by (simp add: run_defs upt_rec)
  have h8: "deref ?w' (Some 1) = Some (xgb_config 3) \<or> deref ?w' (Some 2) = Some (xgb_config 3)"
    by (simp add: deref_def)
  note c = single_key_difference [OF h1 h2 h3 h4 h5 h6 h7 h8]
  have c': "''max_depth'' \<notin> reserved \<and>
     map fst (xgb_config 3) = map fst (xgb_config 2) \<and>
     map_of (xgb_config 3) ''eta'' = map_of (xgb_config 2) ''eta'' \<and>
     (\<exists>v. map_of (xgb_config 3) ''max_depth'' = Some v \<and> \<not> py_eq v (PyInt 2))"
    using c by simp
  have f: "filter (\<lambda>i. py_eq (?vs ! i) (PyInt 2)) [0..<length ?vs] = [1]"
    by (simp add: upt_rec)
  show ?thesis
    by (rule conjI [OF _ c']) (intro conjI h1 h2 h3 h4 h5 f h7 h8)
qed

text \<open>
  C2 as stated fails when the current value occurs twice in a row: in \<open>[1, 1, 2]\<close> with
  current value \<open>1\<close> the left result is a copy that holds \<open>1\<close> again, equal to the input
  on every key.
\<close>

theorem single_key_repeats_counterexample:
  "well_formed example_registry (level_config ''Twin'') ''regression'' \<and>
   get rotating example_registry 0 ''regression'' 1
       \<lparr>objects = [level_config ''Twin''], rng = 0\<rparr>
     = (Inr (Some 1, Some 2),
        \<lparr>objects = [level_config ''Twin'', level_config ''Twin'',
                     AList.update ''level'' (PyInt 2) (level_config ''Twin'')],
         rng = 2\<rparr>) \<and>
   deref \<lparr>objects = [level_config ''Twin'', level_config ''Twin'',
                      AList.update ''level'' (PyInt 2) (level_config ''Twin'')],
          rng = 2::nat\<rparr> (Some 1)
     = Some (level_config ''Twin'')"
  by (simp add: run_defs upt_rec)

text \<open>
  C3. The claim says that a well-formed input never raises, also when there is no tunable
  key. The code does raise there: the loop of lines 37 to 40 runs no iteration, \<^verbatim>\<open>values\<close>
  is never bound, and line 43 raises UnboundLocalError (for a seed out of range line 21
  has raised ValueError before). The theorem evaluates the code on every such input; \<open>well_formed_returns\<close> and \<open>no_long_sequence_no_step\<close> above cover the
  inputs with at least one tunable key.
\<close>

theorem no_tunable_keys_raises:
  assumes "shuffles np"
    and "well_formed reg (objects w ! p) ml_task"
    and "tunable_keys (objects w ! p) = Inr []"
    and "map_of (objects w ! p) ''model_type'' \<noteq> Some (PyStr ''Baseline'')"
  shows "fst (get np reg p ml_task seed w) =
           Inl (if seed_in_range seed then UnboundLocalError else ValueError)"
proof (cases "seed_in_range seed")
  case False
  then show ?thesis by (simp add: get_def seed_generator_def)
next
  case True
  from assms(2) obtain model_type model_params where
    mt: "map_of (objects w ! p) ''model_type'' = Some model_type"
    and rl: "registry_lookup reg ml_task model_type = Inr model_params"
    by (auto simp add: well_formed_def split: option.splits sum.splits)
  have nb: "\<not> py_eq model_type (PyStr ''Baseline'')"
    using assms(4) mt by (simp add: py_eq_str)
  have "fst (np_permutation np (np_seed np seed) []) = []"
    using shuffles_Nil [OF assms(1)] by simp
  then show ?thesis
    using True assms(3) mt nb rl
    by (auto simp add: get_def seed_generator_def Let_def split: prod.splits)
qed

theorem no_tunable_keys_raises_witness:
  "shuffles rotating \<and>
   well_formed example_registry
     (objects \<lparr>objects = [bare_config], rng = 0::nat\<rparr> ! 0) ''regression'' \<and>
   tunable_keys (objects \<lparr>objects = [bare_config], rng = 0::nat\<rparr> ! 0) = Inr [] \<and>
   map_of (objects \<lparr>objects = [bare_config], rng = 0::nat\<rparr> ! 0) ''model_type''
     \<noteq> Some (PyStr ''Baseline'') \<and>
   fst (get rotating example_registry 0 ''regression'' 1
          \<lparr>objects = [bare_config], rng = 0\<rparr>) = Inl UnboundLocalError"
proof -
  let ?w = "\<lparr>objects = [bare_config], rng = 0::nat\<rparr>"
  have h1: "shuffles rotating" by (rule shuffles_rotating)
  have h2: "well_formed example_registry (objects ?w ! 0) ''regression''"
    by (simp add: run_defs)
  have h3: "tunable_keys (objects ?w ! 0) = Inr []" by (simp add: run_defs)
  have h4: "map_of (objects ?w ! 0) ''model_type'' \<noteq> Some (PyStr ''Baseline'')"
    by (simp add: run_defs)
  have c: "fst (get rotating example_registry 0 ''regression'' 1 ?w) = Inl UnboundLocalError"
    using no_tunable_keys_raises [OF h1 h2 h3 h4, where seed = 1]
    by (simp add: seed_in_range_def)
  show ?thesis
    by (intro conjI h1 h2 h3 h4 c)
qed

text \<open>
  C4 (as amended). A configuration that holds \<^verbatim>\<open>model_type\<close>, \<^verbatim>\<open>seed\<close> and \<^verbatim>\<open>ml_task\<close>
  and whose \<^verbatim>\<open>model_type\<close> is \<^verbatim>\<open>"Baseline"\<close> yields \<^verbatim>\<open>[None, None]\<close>, for every task,
  every registry and every seed from \<open>0\<close> to \<open>2 ^ 32 - 1\<close>.
\<close>

theorem baseline_returns_none:
  assumes "seed_in_range seed"
    and "''model_type'' \<in> fst ` set (objects w ! p)"
    and "''seed'' \<in> fst ` set (objects w ! p)"
    and "''ml_task'' \<in> fst ` set (objects w ! p)"
    and "map_of (objects w ! p) ''model_type'' = Some (PyStr ''Baseline'')"
  shows "fst (get np reg p ml_task seed w) = Inr (None, None)"
  using assms by (simp add: get_def seed_generator_def tunable_keys_present Let_def)

theorem baseline_returns_none_witness:
  "seed_in_range 1 \<and>
   ''model_type'' \<in> fst ` set (objects \<lparr>objects = [baseline_config], rng = 0::nat\<rparr> ! 0) \<and>
   ''seed'' \<in> fst ` set (objects \<lparr>objects = [baseline_config], rng = 0::nat\<rparr> ! 0) \<and>
   ''ml_task'' \<in> fst ` set (objects \<lparr>objects = [baseline_config], rng = 0::nat\<rparr> ! 0) \<and>
   map_of (objects \<lparr>objects = [baseline_config], rng = 0::nat\<rparr> ! 0) ''model_type''
     = Some (PyStr ''Baseline'') \<and>
   fst (get rotating example_registry 0 ''unknown task'' 1
          \<lparr>objects = [baseline_config], rng = 0\<rparr>) = Inr (None, None)"
proof -
  let ?w = "\<lparr>objects = [baseline_config], rng = 0::nat\<rparr>"
  have h0: "seed_in_range 1" by (simp add: seed_in_range_def)
  have h1: "''model_type'' \<in> fst ` set (objects ?w ! 0)" by (simp add: run_defs)
  have h2: "''seed'' \<in> fst ` set (objects ?w ! 0)" by (simp add: run_defs)
  have h3: "''ml_task'' \<in> fst ` set (objects ?w ! 0)" by (simp add: run_defs)
  have h4: "map_of (objects ?w ! 0) ''model_type'' = Some (PyStr ''Baseline'')"
    by (simp add: run_defs)
  show ?thesis
    by (intro conjI h0 h1 h2 h3 h4 baseline_returns_none [OF h0 h1 h2 h3 h4])
qed

text \<open>
  C4 as stated fails for a seed that \<^verbatim>\<open>np.random.seed\<close> rejects: with seed \<open>-1\<close> line 21
  raises ValueError before the test of line 30 is reached.
\<close>

theorem baseline_rejected_seed_counterexample:
  "''model_type'' \<in> fst ` set baseline_config \<and>
   ''seed'' \<in> fst ` set baseline_config \<and>
   ''ml_task'' \<in> fst ` set baseline_config \<and>
   map_of baseline_config ''model_type'' = Some (PyStr ''Baseline'') \<and>
   get rotating example_registry 0 ''regression'' (- 1)
       \<lparr>objects = [baseline_config], rng = 0\<rparr>
     = (Inl ValueError, \<lparr>objects = [baseline_config], rng = 0\<rparr>)"
  by (simp add: run_defs)

text \<open>
  C5 (as amended). When the current value of the selected key occurs in the sequence,
  possibly several times, and \<open>j\<close> is the last index holding it: the left result is the
  copy holding the value at \<open>j - 1\<close>, and is absent when \<open>j\<close> is the first position; when
  index \<open>j + 1\<close> exists, the right result is the copy holding the value there. When \<open>j\<close>
  is the final position, the right result comes from the occurrence before \<open>j\<close>, if
  there is one: it is the copy holding the value after that occurrence, and it is absent
  when there is no earlier occurrence. No copy is made for a value that is \<^verbatim>\<open>None\<close>.
\<close>

theorem repeated_value_neighbours:
  assumes "p < length (objects w)"
    and "selection np reg (objects w ! p) ml_task seed = Some (k, vs)"
    and "map_of (objects w ! p) k = Some current"
    and "j < length vs" and "py_eq (vs ! j) current"
    and "\<forall>i. j < i \<and> i < length vs \<longrightarrow> \<not> py_eq (vs ! i) current"
    and "get np reg p ml_task seed w = (Inr (left, right), w')"
  shows "deref w' left =
           (if 1 \<le> j \<and> vs ! (j - 1) \<noteq> PyNone
            then Some (AList.update k (vs ! (j - 1)) (objects w ! p)) else None) \<and>
         (j + 1 < length vs \<longrightarrow> deref w' right =
            (if vs ! (j + 1) \<noteq> PyNone
             then Some (AList.update k (vs ! (j + 1)) (objects w ! p)) else None)) \<and>
         (j + 1 = length vs \<longrightarrow>
            (\<forall>i. i < j \<and> py_eq (vs ! i) current \<and>
                 (\<forall>m. i < m \<and> m < j \<longrightarrow> \<not> py_eq (vs ! m) current) \<longrightarrow>
               deref w' right =
                 (if vs ! (i + 1) \<noteq> PyNone
                  then Some (AList.update k (vs ! (i + 1)) (objects w ! p)) else None)) \<and>
            ((\<forall>i < j. \<not> py_eq (vs ! i) current) \<longrightarrow> right = None))"
proof -
  obtain l0 r0 where
    before: "neighbours_loop (objects w ! p) k vs [0..<j] (PyNone, PyNone) = Inr (l0, r0)"
    using neighbours_loop_total [OF assms(3)] by blast
  let ?lv = "if 1 \<le> j then vs ! (j - 1) else l0"
  let ?rv = "if j + 1 < length vs then vs ! (j + 1) else r0"
  have nb: "find_neighbours (objects w ! p) k vs = Inr (?lv, ?rv)"
    using neighbours_loop_last_match [OF assms(3,4,5,6) before] .
  note d = outcome_selected [OF assms(2) nb assms(1) assms(7)]
  have res: "fst (get np reg p ml_task seed w) = Inr (left, right)"
    using assms(7) by simp
  note f = get_selected(1) [OF assms(2) nb assms(1), unfolded res]
  have l0: "l0 = PyNone" if "j = 0" using before that by simp
  have a: "deref w' left =
           (if 1 \<le> j \<and> vs ! (j - 1) \<noteq> PyNone
            then Some (AList.update k (vs ! (j - 1)) (objects w ! p)) else None)"
    using d(1) l0 by (cases "j = 0") auto
  have b: "j + 1 < length vs \<longrightarrow> deref w' right =
            (if vs ! (j + 1) \<noteq> PyNone
             then Some (AList.update k (vs ! (j + 1)) (objects w ! p)) else None)"
    using d(2) by simp
  have c1: "deref w' right =
                 (if vs ! (i + 1) \<noteq> PyNone
                  then Some (AList.update k (vs ! (i + 1)) (objects w ! p)) else None)"
    if last: "j + 1 = length vs" and i: "i < j" "py_eq (vs ! i) current"
      and gap: "\<forall>m. i < m \<and> m < j \<longrightarrow> \<not> py_eq (vs ! m) current" for i
  proof -
    obtain l1 r1 where
      b1: "neighbours_loop (objects w ! p) k vs [0..<i] (PyNone, PyNone) = Inr (l1, r1)"
      using neighbours_loop_total [OF assms(3)] by blast
    have jl: "j \<le> length vs" using assms(4) by simp
    have "neighbours_loop (objects w ! p) k vs [0..<j] (PyNone, PyNone) =
        Inr (if 1 \<le> i then vs ! (i - 1) else l1,
             if i + 1 < length vs then vs ! (i + 1) else r1)"
      using neighbours_loop_prefix [OF assms(3) i(1) jl i(2) gap b1] .
    then have "r0 = vs ! (i + 1)" using before i(1) assms(4) by simp
    then show ?thesis using d(2) last by simp
  qed
  have c2: "right = None" if last: "j + 1 = length vs"
    and none: "\<forall>i < j. \<not> py_eq (vs ! i) current"
  proof -
    have "neighbours_loop (objects w ! p) k vs [0..<j] (PyNone, PyNone) = Inr (PyNone, PyNone)"
      using assms(3) none by (intro neighbours_loop_no_match) auto
    then have "r0 = PyNone" using before by simp
    then show ?thesis using f last by simp
  qed
  show ?thesis using a b c1 c2 by blast
qed

theorem repeated_value_neighbours_witness:
  "(0 < length (objects \<lparr>objects = [level_config ''Twin''], rng = 0::nat\<rparr>) \<and>
    selection rotating example_registry
      (objects \<lparr>objects = [level_config ''Twin''], rng = 0::nat\<rparr> ! 0) ''regression'' 1
      = Some (''level'', [PyInt 1, PyInt 1, PyInt 2]) \<and>
    map_of (objects \<lparr>objects = [level_config ''Twin''], rng = 0::nat\<rparr> ! 0) ''level''
      = Some (PyInt 1) \<and>
    1 < length [PyInt 1, PyInt 1, PyInt 2] \<and>
    py_eq ([PyInt 1, PyInt 1, PyInt 2] ! 1) (PyInt 1) \<and>
    filter (\<lambda>i. py_eq ([PyInt 1, PyInt 1, PyInt 2] ! i) (PyInt 1))
      [0..<length [PyInt 1, PyInt 1, PyInt 2]] = [0, 1] \<and>
    get rotating example_registry 0 ''regression'' 1
        \<lparr>objects = [level_config ''Twin''], rng = 0\<rparr>
      = (Inr (Some 1, Some 2),
         \<lparr>objects = [level_config ''Twin'', level_config ''Twin'',
                      AList.update ''level'' (PyInt 2) (level_config ''Twin'')],
          rng = 2\<rparr>)) \<and>
   deref \<lparr>objects = [level_config ''Twin'', level_config ''Twin'',
                      AList.update ''level'' (PyInt 2) (level_config ''Twin'')],
          rng = 2::nat\<rparr> (Some 1)
     = Some (AList.update ''level'' (PyInt 1) (level_config ''Twin'')) \<and>
   deref \<lparr>objects = [level_config ''Twin'', level_config ''Twin'',
                      AList.update ''level'' (PyInt 2) (level_config ''Twin'')],
          rng = 2::nat\<rparr> (Some 2)
     = Some (AList.update ''level'' (PyInt 2) (level_config ''Twin''))"
proof -
  let ?w = "\<lparr>objects = [level_config ''Twin''], rng = 0::nat\<rparr>"
  let ?w' = "\<lparr>objects = [level_config ''Twin'', level_config ''Twin'',
                      AList.update ''level'' (PyInt 2) (level_config ''Twin'')],
          rng = 2::nat\<rparr>"
  let ?vs = "[PyInt 1, PyInt 1, PyInt 2]"
  have h1: "0 < length (objects ?w)" by simp
  have h2: "selection rotating example_registry (objects ?w ! 0) ''regression'' 1
      = Some (''level'', ?vs)"
    by (simp add: run_defs)
  have h3: "map_of (objects ?w ! 0) ''level'' = Some (PyInt 1)" by (simp add: run_defs)
  have h4: "1 < length ?vs" by simp
  have h5: "py_eq (?vs ! 1) (PyInt 1)" by simp
  have "\<forall>i < length ?vs. 1 < i \<longrightarrow> \<not> py_eq (?vs ! i) (PyInt 1)"
    by (simp add: All_less_Suc eval_nat_numeral)
  then have h6: "\<forall>i. 1 < i \<and> i < length ?vs \<longrightarrow> \<not> py_eq (?vs ! i) (PyInt 1)"
    by blast
  have h7: "get rotating example_registry 0 ''regression'' 1 ?w = (Inr (Some 1, Some 2), ?w')"
    by (simp add: run_defs upt_rec)
  note c = repeated_value_neighbours [OF h1 h2 h3 h4 h5 h6 h7]
  have c1: "deref ?w' (Some 1) = Some (AList.update ''level'' (PyInt 1) (level_config ''Twin''))"
    using c by simp
  have c2: "deref ?w' (Some 2) = Some (AList.update ''level'' (PyInt 2) (level_config ''Twin''))"
    using c by simp
  have f: "filter (\<lambda>i. py_eq (?vs ! i) (PyInt 1)) [0..<length ?vs] = [0, 1]"
    by (simp add: upt_rec)
  show ?thesis
    by (intro conjI h1 h2 h3 h4 h5 f h7 c1 c2)
qed

text \<open>
  C5 as stated fails when the last occurrence is at the final position: in \<open>[1, 2, 1]\<close>
  with current value \<open>1\<close> the last match is at index \<open>2\<close>, no index \<open>3\<close> exists, and
  yet the right result is present and holds \<open>2\<close>, the value after the match at index
  \<open>0\<close>.
\<close>

theorem stale_right_counterexample:
  "selection rotating example_registry (level_config ''Echo'') ''regression'' 1
     = Some (''level'', [PyInt 1, PyInt 2, PyInt 1]) \<and>
   map_of (level_config ''Echo'') ''level'' = Some (PyInt 1) \<and>
   filter (\<lambda>i. py_eq ([PyInt 1, PyInt 2, PyInt 1] ! i) (PyInt 1))
     [0..<length [PyInt 1, PyInt 2, PyInt 1]] = [0, 2] \<and>
   length [PyInt 1, PyInt 2, PyInt 1] = 2 + 1 \<and>
   outcome rotating example_registry 0 ''regression'' 1
      \<lparr>objects = [level_config ''Echo''], rng = 0\<rparr>
     = Inr (Some (AList.update ''level'' (PyInt 2) (level_config ''Echo'')),
            Some (AList.update ''level'' (PyInt 2) (level_config ''Echo'')))"
  by (simp add: run_defs upt_rec)

text \<open>
  C6. When the current value of the selected key occurs nowhere in the registered
  sequence, the call returns \<^verbatim>\<open>[None, None]\<close> and raises nothing.
\<close>

theorem absent_value_no_step:
  assumes "p < length (objects w)"
    and "selection np reg (objects w ! p) ml_task seed = Some (k, values)"
    and "map_of (objects w ! p) k = Some current"
    and "\<forall>i < length values. \<not> py_eq (values ! i) current"
  shows "fst (get np reg p ml_task seed w) = Inr (None, None)"
  using get_selected(1) [OF assms(2) find_neighbours_no_match [OF assms(3,4)] assms(1)]
  by simp

theorem absent_value_no_step_witness:
  "0 < length (objects \<lparr>objects = [xgb_config 7], rng = 0::nat\<rparr>) \<and>
   selection rotating example_registry
     (objects \<lparr>objects = [xgb_config 7], rng = 0::nat\<rparr> ! 0) ''regression'' 1
     = Some (''max_depth'', map PyInt [1, 2, 3, 4]) \<and>
   map_of (objects \<lparr>objects = [xgb_config 7], rng = 0::nat\<rparr> ! 0) ''max_depth''
     = Some (PyInt 7) \<and>
   filter (\<lambda>i. py_eq (map PyInt [1, 2, 3, 4] ! i) (PyInt 7))
     [0..<length (map PyInt [1, 2, 3, 4])] = [] \<and>
   fst (get rotating example_registry 0 ''regression'' 1
          \<lparr>objects = [xgb_config 7], rng = 0\<rparr>) = Inr (None, None)"
proof -
  let ?w = "\<lparr>objects = [xgb_config 7], rng = 0::nat\<rparr>"
  let ?vs = "map PyInt [1, 2, 3, 4]"
  have h1: "0 < length (objects ?w)" by simp
  have h2: "selection rotating example_registry (objects ?w ! 0) ''regression'' 1
      = Some (''max_depth'', ?vs)"
    by (simp add: run_defs)
  have h3: "map_of (objects ?w ! 0) ''max_depth'' = Some (PyInt 7)" by (simp add: run_defs)
  have h4: "\<forall>i < length ?vs. \<not> py_eq (?vs ! i) (PyInt 7)"
    by (simp add: All_less_Suc eval_nat_numeral)
  have f: "filter (\<lambda>i. py_eq (?vs ! i) (PyInt 7)) [0..<length ?vs] = []"
    by (simp add: upt_rec)
  show ?thesis
    by (intro conjI h1 h2 h3 f absent_value_no_step [OF h1 h2 h3 h4])
qed

text \<open>
  C7. Two calls with the same configuration, task and seed have the same outcome (the
  same exception, or the same pair of dictionaries), whatever the heap and the generator
  state they start from. The key they select is \<open>selection\<close>, which does not read the
  world at all.
\<close>

theorem get_deterministic:
  assumes "p1 < length (objects w1)" and "p2 < length (objects w2)"
    and "objects w1 ! p1 = objects w2 ! p2"
  shows "outcome np reg p1 ml_task seed w1 = outcome np reg p2 ml_task seed w2"
proof (cases "selection np reg (objects w1 ! p1) ml_task seed")
  case None
  then show ?thesis using assms(3) by (rule outcome_unselected)
next
  case (Some kv)
  obtain k vs where kv: "kv = (k, vs)" by (cases kv)
  have s1: "selection np reg (objects w1 ! p1) ml_task seed = Some (k, vs)"
    using Some kv by simp
  have s2: "selection np reg (objects w2 ! p2) ml_task seed = Some (k, vs)"
    using s1 assms(3) by simp
  show ?thesis
  proof (cases "find_neighbours (objects w1 ! p1) k vs")
    case (Inl e)
    have e1: "fst (get np reg p1 ml_task seed w1) = Inl e"
      using get_selected_error [OF s1 Inl] .
    have "find_neighbours (objects w2 ! p2) k vs = Inl e" using Inl assms(3) by simp
    then have e2: "fst (get np reg p2 ml_task seed w2) = Inl e"
      using get_selected_error [OF s2] by simp
    show ?thesis using e1 e2 by (auto simp add: outcome_def split: prod.splits)
  next
    case (Inr lr)
    obtain lv rv where lr: "lr = (lv, rv)" by (cases lr)
    have n1: "find_neighbours (objects w1 ! p1) k vs = Inr (lv, rv)" using Inr lr by simp
    have n2: "find_neighbours (objects w2 ! p2) k vs = Inr (lv, rv)" using n1 assms(3) by simp
    obtain l1 r1 u1 where g1: "get np reg p1 ml_task seed w1 = (Inr (l1, r1), u1)"
      using get_selected(1) [OF s1 n1 assms(1)]
      by (cases "get np reg p1 ml_task seed w1") auto
    obtain l2 r2 u2 where g2: "get np reg p2 ml_task seed w2 = (Inr (l2, r2), u2)"
      using get_selected(1) [OF s2 n2 assms(2)]
      by (cases "get np reg p2 ml_task seed w2") auto
    show ?thesis
      using outcome_selected [OF s1 n1 assms(1) g1] outcome_selected [OF s2 n2 assms(2) g2]
        assms(3) by (simp add: outcome_def g1 g2)
  qed
qed

theorem get_deterministic_witness:
  "0 < length (objects \<lparr>objects = [xgb_config 2], rng = 0::nat\<rparr>) \<and>
   1 < length (objects \<lparr>objects = [baseline_config, xgb_config 2], rng = 5::nat\<rparr>) \<and>
   objects \<lparr>objects = [xgb_config 2], rng = 0::nat\<rparr> ! 0
     = objects \<lparr>objects = [baseline_config, xgb_config 2], rng = 5::nat\<rparr> ! 1 \<and>
   outcome rotating example_registry 0 ''regression'' 1 \<lparr>objects = [xgb_config 2], rng = 0\<rparr>
     = outcome rotating example_registry 1 ''regression'' 1
         \<lparr>objects = [baseline_config, xgb_config 2], rng = 5\<rparr>"
proof -
  let ?w1 = "\<lparr>objects = [xgb_config 2], rng = 0::nat\<rparr>"
  let ?w2 = "\<lparr>objects = [baseline_config, xgb_config 2], rng = 5::nat\<rparr>"
  have h1: "0 < length (objects ?w1)" by simp
  have h2: "1 < length (objects ?w2)" by simp
  have h3: "objects ?w1 ! 0 = objects ?w2 ! 1" by simp
  show ?thesis
    by (intro conjI h1 h2 h3 get_deterministic [OF h1 h2 h3])
qed

text \<open>
  C8 (as amended). A call with a seed from \<open>0\<close> to \<open>2 ^ 32 - 1\<close> overwrites the state of
  the process-wide generator: the state it leaves does not depend on the state it finds,
  and it is the state seeded with \<^verbatim>\<open>seed\<close>, or that state advanced by one permutation of
  the tunable keys. A call with any other seed raises ValueError and leaves the world as
  it found it.
\<close>

theorem get_reseeds_generator:
  "(seed_in_range seed \<longrightarrow>
      rng (snd (get np reg p ml_task seed w))
        = rng (snd (get np reg p ml_task seed (w\<lparr>rng := g\<rparr>))) \<and>
      (rng (snd (get np reg p ml_task seed w)) = np_seed np seed \<or>
       (\<exists>keys. tunable_keys (objects w ! p) = Inr keys \<and>
          rng (snd (get np reg p ml_task seed w))
            = snd (np_permutation np (np_seed np seed) keys)))) \<and>
   (\<not> seed_in_range seed \<longrightarrow>
      get np reg p ml_task seed w = (Inl ValueError, w))"
proof (cases "seed_in_range seed")
  case False
  then show ?thesis by (simp add: get_def seed_generator_def)
next
  case True
  have a: "rng (snd (get np reg p ml_task seed u)) =
     (case tunable_keys (objects u ! p) of
        Inl e \<Rightarrow> np_seed np seed
      | Inr keys \<Rightarrow>
     (case map_of (objects u ! p) ''model_type'' of
        None \<Rightarrow> np_seed np seed
      | Some model_type \<Rightarrow>
     if py_eq model_type (PyStr ''Baseline'') then np_seed np seed
     else
     (case registry_lookup reg ml_task model_type of
        Inl e \<Rightarrow> np_seed np seed
      | Inr model_params \<Rightarrow> snd (np_permutation np (np_seed np seed) keys))))" for u
    using True
    by (auto simp add: get_def seed_generator_def Let_def make_neighbour_def deepcopy_def
        setitem_def split: sum.splits option.splits if_splits prod.splits)
  show ?thesis
    unfolding a using True by (auto split: sum.splits option.splits)
qed

theorem get_reseeds_generator_witness:
  "seed_in_range 1 \<and>
   rng (snd (get rotating example_registry 0 ''regression'' 1
               \<lparr>objects = [xgb_config 2], rng = 0\<rparr>))
     = rng (snd (get rotating example_registry 0 ''regression'' 1
               (\<lparr>objects = [xgb_config 2], rng = 0\<rparr>\<lparr>rng := 9\<rparr>)))"
proof -
  have h: "seed_in_range 1" by (simp add: seed_in_range_def)
  have c: "rng (snd (get rotating example_registry 0 ''regression'' 1
               \<lparr>objects = [xgb_config 2], rng = 0\<rparr>))
     = rng (snd (get rotating example_registry 0 ''regression'' 1
               (\<lparr>objects = [xgb_config 2], rng = 0\<rparr>\<lparr>rng := 9\<rparr>)))"
    using get_reseeds_generator
      [where seed = 1 and np = rotating and reg = example_registry and p = 0
         and ml_task = "''regression''"
         and w = "\<lparr>objects = [xgb_config 2], rng = 0\<rparr>" and g = 9] h
    by blast
  show ?thesis by (intro conjI h c)
qed

text \<open>
  C8 as stated fails: a call with seed \<open>1\<close> that starts with the generator in state \<open>0\<close>
  leaves it in state \<open>2\<close>.
\<close>

theorem generator_state_counterexample:
  "rng (snd (get rotating example_registry 0 ''regression'' 1
               \<lparr>objects = [xgb_config 2], rng = 0\<rparr>)) = 2 \<and>
   rng \<lparr>objects = [xgb_config 2], rng = 0::nat\<rparr> = 0"
  by (simp add: run_defs upt_rec)

text \<open>
  C9. A call changes no object that existed before it, the input dictionary included.
  Every dictionary it returns is a new object, and its content is the input with the
  value of the selected key replaced; the two results are never the same object.
\<close>

theorem get_frame:
  assumes "p < length (objects w)"
    and "get np reg p ml_task seed w = (res, w')"
  shows "length (objects w) \<le> length (objects w') \<and>
         (\<forall>a < length (objects w). objects w' ! a = objects w ! a) \<and>
         (\<forall>left right a. res = Inr (left, right) \<and> (left = Some a \<or> right = Some a) \<longrightarrow>
            length (objects w) \<le> a \<and> a < length (objects w') \<and>
            (\<exists>k vs v. selection np reg (objects w ! p) ml_task seed = Some (k, vs) \<and>
               objects w' ! a = AList.update k v (objects w ! p))) \<and>
         (\<forall>a. res \<noteq> Inr (Some a, Some a))"
proof (cases "selection np reg (objects w ! p) ml_task seed")
  case None
  have o: "objects w' = objects w" using get_unselected(1) [OF None] assms(2)
    by simp
  have "res = Inr (left, right) \<Longrightarrow> left = None \<and> right = None" for left right
    using get_unselected(2) [OF None, of "(left, right)"] assms(2) by simp
  then show ?thesis using o by auto
next
  case (Some kv)
  obtain k vs where kv: "kv = (k, vs)" by (cases kv)
  have s: "selection np reg (objects w ! p) ml_task seed = Some (k, vs)" using Some kv by simp
  show ?thesis
  proof (cases "find_neighbours (objects w ! p) k vs")
    case (Inl e)
    have r: "res = Inl e" using get_selected_error [OF s Inl] assms(2) by simp
    then have "fst (get np reg p ml_task seed w) = Inl e" using assms(2) by simp
    then have "objects w' = objects w" using get_error_objects assms(2) by (metis snd_conv)
    then show ?thesis using r by simp
  next
    case (Inr lr)
    obtain lv rv where lr: "lr = (lv, rv)" by (cases lr)
    have n: "find_neighbours (objects w ! p) k vs = Inr (lv, rv)" using Inr lr by simp
    have r: "res = Inr (if lv \<noteq> PyNone then Some (length (objects w)) else None,
           if rv \<noteq> PyNone
           then Some (length (objects w) + (if lv \<noteq> PyNone then 1 else 0)) else None)"
      using get_selected(1) [OF s n assms(1)] assms(2) by simp
    have o: "objects w' = objects w
           @ (if lv \<noteq> PyNone then [AList.update k lv (objects w ! p)] else [])
           @ (if rv \<noteq> PyNone then [AList.update k rv (objects w ! p)] else [])"
      using get_selected(2) [OF s n assms(1)] assms(2) by simp
    have 1: "length (objects w) \<le> length (objects w')" by (simp add: o)
    have 2: "\<forall>a < length (objects w). objects w' ! a = objects w ! a"
      by (simp add: o nth_append)
    have 3: "\<forall>left right a. res = Inr (left, right) \<and> (left = Some a \<or> right = Some a) \<longrightarrow>
            length (objects w) \<le> a \<and> a < length (objects w') \<and>
            (\<exists>k vs v. selection np reg (objects w ! p) ml_task seed = Some (k, vs) \<and>
               objects w' ! a = AList.update k v (objects w ! p))"
      using s by (auto simp add: r o nth_append split: if_splits)
    have 4: "\<forall>a. res \<noteq> Inr (Some a, Some a)"
      by (auto simp add: r)
    show ?thesis using 1 2 3 4 by blast
  qed
qed

theorem get_frame_witness:
  "0 < length (objects \<lparr>objects = [xgb_config 2], rng = 0::nat\<rparr>) \<and>
   get rotating example_registry 0 ''regression'' 1 \<lparr>objects = [xgb_config 2], rng = 0\<rparr>
     = (Inr (Some 1, Some 2),
        \<lparr>objects = [xgb_config 2, xgb_config 1, xgb_config 3], rng = 2\<rparr>) \<and>
   objects \<lparr>objects = [xgb_config 2, xgb_config 1, xgb_config 3], rng = 2::nat\<rparr> ! 0
     = objects \<lparr>objects = [xgb_config 2], rng = 0::nat\<rparr> ! 0"
proof -
  let ?w = "\<lparr>objects = [xgb_config 2], rng = 0::nat\<rparr>"
  let ?w' = "\<lparr>objects = [xgb_config 2, xgb_config 1, xgb_config 3], rng = 2::nat\<rparr>"
  have h1: "0 < length (objects ?w)" by simp
  have h2: "get rotating example_registry 0 ''regression'' 1 ?w = (Inr (Some 1, Some 2), ?w')"
    by (simp add: run_defs upt_rec)
  note c = get_frame [OF h1 h2]
  have "\<forall>a < length (objects ?w). objects ?w' ! a = objects ?w ! a"
    using c by (rule conjunct1 [OF conjunct2])
  then have c2: "objects ?w' ! 0 = objects ?w ! 0" using h1 by blast
  show ?thesis by (intro conjI h1 h2 c2)
qed

text \<open>
  C10. A \<^verbatim>\<open>"Baseline"\<close> configuration without \<^verbatim>\<open>seed\<close> or without \<^verbatim>\<open>ml_task\<close> raises
  ValueError: the keys are removed at lines 25 to 27, before the test of line 30.
\<close>

theorem baseline_missing_reserved_raises:
  assumes "map_of (objects w ! p) ''model_type'' = Some (PyStr ''Baseline'')"
    and "''seed'' \<notin> fst ` set (objects w ! p) \<or> ''ml_task'' \<notin> fst ` set (objects w ! p)"
  shows "fst (get np reg p ml_task seed w) = Inl ValueError"
  using assms by (simp add: get_def seed_generator_def tunable_keys_absent Let_def)

theorem baseline_missing_reserved_raises_witness:
  "map_of (objects \<lparr>objects = [[(''model_type'', PyStr ''Baseline''), (''seed'', PyInt 1)]],
                    rng = 0::nat\<rparr> ! 0) ''model_type'' = Some (PyStr ''Baseline'') \<and>
   ''ml_task'' \<notin> fst ` set (objects
        \<lparr>objects = [[(''model_type'', PyStr ''Baseline''), (''seed'', PyInt 1)]],
         rng = 0::nat\<rparr> ! 0) \<and>
   fst (get rotating example_registry 0 ''regression'' 1
          \<lparr>objects = [[(''model_type'', PyStr ''Baseline''), (''seed'', PyInt 1)]], rng = 0\<rparr>)
     = Inl ValueError"
proof -
  let ?w = "\<lparr>objects = [[(''model_type'', PyStr ''Baseline''), (''seed'', PyInt 1)]],
             rng = 0::nat\<rparr>"
  have h1: "map_of (objects ?w ! 0) ''model_type'' = Some (PyStr ''Baseline'')" by simp
  have h2: "''seed'' \<notin> fst ` set (objects ?w ! 0) \<or> ''ml_task'' \<notin> fst ` set (objects ?w ! 0)"
    by simp
  have m: "''ml_task'' \<notin> fst ` set (objects ?w ! 0)" by simp
  show ?thesis
    by (intro conjI h1 m baseline_missing_reserved_raises [OF h1 h2])
qed

end
